theory Spec2Isabelle
  imports Complex_Main "HOL-Library.Sublist" "HOL-Library.List_Lexorder" "HOL-Library.Multiset"
begin

section \<open>Python values\<close>

text \<open>
  A Python \<open>str\<close> is a sequence of Unicode code points; \<open>len\<close>, slicing and
  \<open>in\<close> count code points, so a string is a list of naturals. \<open>u\<close> writes an
  ASCII literal.
\<close>

type_synonym ustr = "nat list"

definition u :: "string \<Rightarrow> ustr" where
  "u s = map of_char s"

text \<open>
  The values \<open>json.load\<close> produces: \<open>None\<close>, \<open>bool\<close>, \<open>int\<close>, \<open>float\<close>,
  \<open>str\<close>, \<open>list\<close> and \<open>dict\<close> with \<open>str\<close> keys (in insertion order).
  Floats are modelled by the real numbers they denote.
\<close>

datatype pyval =
    PNone
  | PBool bool
  | PInt int
  | PFloat real
  | PStr ustr
  | PList "pyval list"
  | PDict "(ustr \<times> pyval) list"

datatype error =
    FileNotFoundError
  | PermissionError
  | JSONDecodeError
  | AttributeError
  | TypeError

text \<open>Truth value testing (\<open>if x\<close>, \<open>not x\<close>, \<open>x or y\<close>).\<close>

fun truthy :: "pyval \<Rightarrow> bool" where
  "truthy PNone = False"
| "truthy (PBool b) = b"
| "truthy (PInt i) = (i \<noteq> 0)"
| "truthy (PFloat x) = (x \<noteq> 0)"
| "truthy (PStr s) = (s \<noteq> [])"
| "truthy (PList vs) = (vs \<noteq> [])"
| "truthy (PDict kvs) = (kvs \<noteq> [])"

text \<open>\<open>x or y\<close>.\<close>

definition py_or :: "pyval \<Rightarrow> pyval \<Rightarrow> pyval" where
  "py_or x y = (if truthy x then x else y)"

text \<open>
  \<open>x.get(k, d)\<close>: only a \<open>dict\<close> has the method; on every other JSON value the
  attribute lookup raises \<open>AttributeError\<close>.
\<close>

fun py_get :: "pyval \<Rightarrow> ustr \<Rightarrow> pyval \<Rightarrow> error + pyval" where
  "py_get (PDict kvs) k d = Inr (case map_of kvs k of Some v \<Rightarrow> v | None \<Rightarrow> d)"
| "py_get _ k d = Inl AttributeError"

text \<open>
  \<open>for it in x\<close>: a list yields its elements, a \<open>str\<close> its one-character strings,
  a \<open>dict\<close> its keys; \<open>None\<close>, numbers and booleans are not iterable.
\<close>

fun py_iter :: "pyval \<Rightarrow> error + pyval list" where
  "py_iter (PList vs) = Inr vs"
| "py_iter (PStr s) = Inr (map (\<lambda>c. PStr [c]) s)"
| "py_iter (PDict kvs) = Inr (map (\<lambda>kv. PStr (fst kv)) kvs)"
| "py_iter _ = Inl TypeError"

text \<open>Sequencing of computations that may raise.\<close>

definition ebind :: "error + 'a \<Rightarrow> ('a \<Rightarrow> error + 'b) \<Rightarrow> error + 'b" where
  "ebind m f = (case m of Inl e \<Rightarrow> Inl e | Inr x \<Rightarrow> f x)"

section \<open>Library functions the program calls\<close>

text \<open>
  The program calls \<open>str.lower\<close>, \<open>str()\<close> on values that are not strings,
  \<open>round(x, 2)\<close> and the two \<open>rapidfuzz.fuzz\<close> ratios, and it adds and
  subtracts floats. A float is modelled by the real number it denotes; the sum and
  the difference of two floats are the floats nearest to the exact ones, not the
  exact ones, so \<open>+\<close> and \<open>-\<close> on floats are \<open>fadd\<close> and \<open>fsub\<close>. None of
  these is code of the program; every function below takes them as the parameter
  \<open>L\<close>, and a theorem that needs a property of one of them states it as a
  hypothesis.
\<close>

record pylib =
  lower :: "ustr \<Rightarrow> ustr"
  repr :: "pyval \<Rightarrow> ustr"
  round2 :: "real \<Rightarrow> real"
  fadd :: "real \<Rightarrow> real \<Rightarrow> real"
  fsub :: "real \<Rightarrow> real \<Rightarrow> real"
  token_set_ratio :: "ustr \<Rightarrow> ustr \<Rightarrow> real"
  partial_ratio :: "ustr \<Rightarrow> ustr \<Rightarrow> real"

text \<open>\<open>str(v)\<close>: a string is returned as it is.\<close>

definition py_str :: "pylib \<Rightarrow> pyval \<Rightarrow> ustr" where
  "py_str L v = (case v of PStr s \<Rightarrow> s | _ \<Rightarrow> repr L v)"

text \<open>
  \<open>str.isspace\<close> on one code point: the characters \<open>str.strip()\<close> removes
  (U+0009..U+000D, U+001C..U+0020, U+0085, U+00A0, U+1680, U+2000..U+200A, U+2028,
  U+2029, U+202F, U+205F, U+3000).
\<close>

definition isspace :: "nat \<Rightarrow> bool" where
  "isspace c \<longleftrightarrow>
     (9 \<le> c \<and> c \<le> 13) \<or> (28 \<le> c \<and> c \<le> 32) \<or> c = 133 \<or> c = 160 \<or> c = 5760 \<or>
     (8192 \<le> c \<and> c \<le> 8202) \<or> c = 8232 \<or> c = 8233 \<or> c = 8239 \<or> c = 8287 \<or> c = 12288"

definition strip :: "ustr \<Rightarrow> ustr" where
  "strip s = rev (dropWhile isspace (rev (dropWhile isspace s)))"

text \<open>\<open>sep.join(xs)\<close>.\<close>

fun join :: "ustr \<Rightarrow> ustr list \<Rightarrow> ustr" where
  "join sep [] = []"
| "join sep [x] = x"
| "join sep (x # y # ys) = x @ sep @ join sep (y # ys)"

section \<open>Text normalizer\<close>

text \<open>The loop of \<open>norm_list\<close> over the elements of a list.\<close>

fun norm_list_loop :: "pylib \<Rightarrow> pyval list \<Rightarrow> ustr list" where
  "norm_list_loop L [] = []"
| "norm_list_loop L (v # vs) =
     (if v = PNone then norm_list_loop L vs
      else let s = lower L (strip (py_str L v))
           in if s \<noteq> [] then s # norm_list_loop L vs else norm_list_loop L vs)"

definition norm_list :: "pylib \<Rightarrow> pyval \<Rightarrow> ustr list" where
  "norm_list L x =
     (if \<not> truthy x then []
      else case x of
          PStr s \<Rightarrow> [lower L (strip s)]
        | PList vs \<Rightarrow> norm_list_loop L vs
        | _ \<Rightarrow> (let s = lower L (strip (py_str L x)) in if s \<noteq> [] then [s] else []))"

section \<open>Chunker\<close>

text \<open>\<open>text.replace("\r\n", "\n")\<close>: every CR LF pair, left to right, becomes LF.\<close>

fun replace_crlf :: "ustr \<Rightarrow> ustr" where
  "replace_crlf (a # b # cs) =
     (if a = 13 \<and> b = 10 then 10 # replace_crlf cs else a # replace_crlf (b # cs))"
| "replace_crlf cs = cs"

text \<open>
  \<open>re.split(r"\n{2,}", t)\<close>: the separators are the maximal runs of two or more
  line feeds, found left to right; the pieces between them are returned, an empty
  piece where a separator starts or ends the text.
\<close>

function re_split_nl :: "ustr \<Rightarrow> ustr list" where
  "re_split_nl [] = [[]]"
| "re_split_nl (c # cs) =
     (if c = 10 \<and> take 1 cs = [10] then [] # re_split_nl (dropWhile (\<lambda>x. x = 10) cs)
      else (case re_split_nl cs of p # ps \<Rightarrow> (c # p) # ps | [] \<Rightarrow> [[c]]))"
  by pat_completeness auto
termination
  by (relation "measure length") (auto simp: le_imp_less_Suc length_dropWhile_le)

definition split_into_chunks :: "pyval \<Rightarrow> error + ustr list" where
  "split_into_chunks text =
     (if \<not> truthy text then Inr []
      else case text of
          PStr s \<Rightarrow>
            (let t = strip (replace_crlf s);
                 parts = re_split_nl t;
                 chunks = filter (\<lambda>p. \<not> length p < 80) (map strip parts)
             in Inr (if chunks \<noteq> [] then chunks else [t]))
        | _ \<Rightarrow> Inl AttributeError)"

text \<open>
  The pieces of a text with the separators put back between them: what was split.
\<close>

fun weave :: "ustr list \<Rightarrow> ustr list \<Rightarrow> ustr" where
  "weave [] seps = []"
| "weave (p # ps) [] = p"
| "weave (p # ps) (sep # seps) = p @ sep @ weave ps seps"

text \<open>
  The words of the specification, ``runs of two-or-more consecutive blank lines'':
  the lines of a text are what stands between its line feeds, a line is blank when
  it holds white space only, and \<open>has_two_blank_lines\<close> says that two blank lines
  follow one another somewhere in the text.
\<close>

fun split_lines :: "ustr \<Rightarrow> ustr list" where
  "split_lines [] = [[]]"
| "split_lines (c # cs) =
     (if c = 10 then [] # split_lines cs
      else (case split_lines cs of l # ls \<Rightarrow> (c # l) # ls | [] \<Rightarrow> [[c]]))"

fun two_blank_in_a_row :: "ustr list \<Rightarrow> bool" where
  "two_blank_in_a_row (a # b # ls) =
     ((list_all isspace a \<and> list_all isspace b) \<or> two_blank_in_a_row (b # ls))"
| "two_blank_in_a_row ls = False"

definition has_two_blank_lines :: "ustr \<Rightarrow> bool" where
  "has_two_blank_lines t = two_blank_in_a_row (split_lines t)"

section \<open>Keyword extractor\<close>

text \<open>
  \<open>KEYBANK\<close>: topic name and trigger substrings, as code points (the entries
  are Azerbaijani words; the topic names are \<open>auditory\<close>, \<open>smell\<close>, \<open>touch\<close>,
  \<open>sleep\<close>, \<open>toilet\<close>, \<open>food\<close>, \<open>meltdown\<close>, \<open>hygiene\<close>, \<open>school\<close>,
  \<open>communication\<close>).
\<close>

definition KEYBANK :: "(ustr \<times> ustr list) list" where
  "KEYBANK = [
    (u ''auditory'',
     [
      [113, 117, 108, 97, 113], [113, 117, 108, 97, 287],
      [113, 117, 108, 97, 113, 108, 97, 114], [115, 601, 115], [115, 101, 115],
      [115, 601, 115, 45, 107, 252, 121], [115, 101, 115, 45, 107, 117, 121],
      [116, 111, 122, 115, 111, 114, 97, 110], [102, 101, 110],
      [118, 101, 110, 116, 105, 108, 121, 97, 115, 105, 121, 97],
      [118, 101, 110, 116, 105, 108, 121, 97, 116, 111, 114],
      [109, 97, 351, 305, 110, 32, 115, 601, 115, 105],
      [109, 97, 115, 105, 110, 32, 115, 101, 115, 105], [113, 305, 351, 113, 305, 114],
      [98, 97, 103, 105, 114], [115, 105, 114, 101, 110, 97], [109, 101, 116, 114, 111],
      [116, 111, 121]]),
    (u ''smell'',
     [
      [113, 111, 120, 117], [105, 121], [601, 116, 105, 114],
      [112, 97, 114, 102, 117, 109], [116, 601, 109, 105, 122, 108, 105, 107],
      [120, 108, 111, 114], [121, 101, 109, 601, 107, 32, 113, 111, 120, 117, 115, 117]]),
    (u ''touch'',
     [
      [116, 111, 120, 117, 110], [112, 97, 108, 116, 97, 114],
      [101, 116, 105, 107, 101, 116], [99, 111, 114, 97, 98], [99, 111, 114, 97, 98],
      [100, 252, 121, 109, 601], [100, 97, 114, 97, 113], [115, 97, 231]]),
    (u ''sleep'',
     [
      [121, 117, 120, 117], [121, 97, 116, 109, 305, 114], [111, 121, 97, 110, 305, 114],
      [103, 101, 99, 601], [114, 101, 106, 105, 109]]),
    (u ''toilet'',
     [
      [116, 117, 97, 108, 101, 116], [112, 97, 109, 112, 101, 114, 115], [98, 101, 122],
      [117, 110, 105, 116, 97, 122], [107, 97, 114, 351, 111, 107],
      [115, 105, 100, 105, 107], [110, 601, 99, 105, 115]]),
    (u ''food'',
     [
      [121, 101, 109, 601, 107], [113, 105, 100, 97], [100, 97, 100],
      [116, 101, 107, 115, 116, 117, 114, 97], [115, 101, 231, 105, 114],
      [121, 101, 109, 105, 114], [113, 108, 252, 116, 101, 110],
      [107, 97, 122, 101, 105, 110]]),
    (u ''meltdown'',
     [
      [109, 101, 108, 116, 100, 111, 119, 110], [105, 115, 116, 101, 114, 105, 107, 97],
      [113, 305, 351, 113, 305, 114, 305, 114], [98, 97, 287, 305, 114, 305, 114],
      [97, 113, 114, 101, 115, 115, 105, 121, 97], [118, 117, 114, 117, 114],
      [100, 105, 351, 108, 601, 121, 105, 114]]),
    (u ''hygiene'',
     [
      [100, 105, 351], [102, 305, 114, 231, 97], [112, 97, 115, 116, 97], [100, 117, 351],
      [231, 105, 109, 109, 601, 107], [100, 305, 114, 110, 97, 113]]),
    (u ''school'',
     [
      [109, 601, 107, 116, 601, 98], [98, 97, 287, 231, 97],
      [109, 252, 601, 108, 108, 105, 109], [100, 601, 114, 115],
      [105, 110, 107, 108, 121, 117, 122, 105, 118]]),
    (u ''communication'',
     [
      [100, 97, 110, 305, 351, 109, 305, 114], [252, 110, 115, 105, 121, 121, 601, 116],
      [106, 101, 115, 116], [112, 101, 99, 115],
      [101, 120, 111, 108, 97, 108, 105, 121, 97],
      [116, 601, 107, 114, 97, 114, 32, 101, 100, 105, 114]])]"

text \<open>
  \<open>re.findall(r"[a-z...0-9]{3,}", s)\<close> with the class of ASCII lower-case letters,
  the seven Azerbaijani letters U+0259, U+011F, U+0131, U+00F6, U+015F, U+00FC, U+00E7
  and the digits: the maximal runs of such characters that are at least three long.
\<close>

definition is_word_char :: "nat \<Rightarrow> bool" where
  "is_word_char c \<longleftrightarrow>
     (97 \<le> c \<and> c \<le> 122) \<or> c = 601 \<or> c = 287 \<or> c = 305 \<or> c = 246 \<or> c = 351 \<or>
     c = 252 \<or> c = 231 \<or> (48 \<le> c \<and> c \<le> 57)"

function findall_words :: "ustr \<Rightarrow> ustr list" where
  "findall_words [] = []"
| "findall_words (c # cs) =
     (if is_word_char c
      then (let w = c # takeWhile is_word_char cs
            in (if 3 \<le> length w then [w] else []) @ findall_words (dropWhile is_word_char cs))
      else findall_words cs)"
  by pat_completeness auto
termination
  by (relation "measure length") (auto simp: le_imp_less_Suc length_dropWhile_le)

text \<open>\<open>(x or "").lower()\<close>: a value that is true and not a string has no \<open>lower\<close>.\<close>

definition or_empty_lower :: "pylib \<Rightarrow> pyval \<Rightarrow> error + ustr" where
  "or_empty_lower L x =
     (case py_or x (PStr []) of PStr s \<Rightarrow> Inr (lower L s) | _ \<Rightarrow> Inl AttributeError)"

text \<open>
  \<open>extract_keywords\<close> collects a set and returns \<open>sorted(kws)\<close>: the distinct
  members in the lexicographic order of their code points.
\<close>

definition extract_keywords :: "pylib \<Rightarrow> pyval \<Rightarrow> pyval \<Rightarrow> error + ustr list" where
  "extract_keywords L title text =
     ebind (or_empty_lower L title) (\<lambda>title_l.
     ebind (or_empty_lower L text) (\<lambda>text_l.
       let kws1 = findall_words title_l;
           kws2 = filter (\<lambda>v. sublist v title_l \<or> sublist v text_l) (concat (map snd KEYBANK));
           kws3 = (if sublist [113, 117, 108, 97, 113] text_l \<and>
                      (sublist [97, 287, 108, 97, 121] text_l \<or> sublist (u ''aglay'') text_l)
                   then [[113, 117, 108, 97, 113, 108, 97, 114, 305, 110, 305, 32, 116, 117, 116,
                          117, 98, 32, 97, 287, 108, 97, 121, 305, 114],
                         u ''qulaqlarini tutub aglayir'']
                   else [])
       in Inr (sort (remdups (kws1 @ kws2 @ kws3)))))"

section \<open>Knowledge base\<close>

text \<open>
  An entry of \<open>KB\<close> is a dict that \<open>load_json\<close> builds with fixed keys; the keys
  \<open>parent_id\<close> and \<open>image\<close> exist only in the entries made from \<open>problems\<close>
  (\<open>None\<close> here is the absent key). Such a dict is never empty, so it is true in
  a condition.
\<close>

record entry =
  e_id :: pyval
  e_title :: pyval
  e_topic :: pyval
  e_keywords :: "ustr list"
  e_text :: pyval
  e_source :: ustr
  e_parent_id :: "pyval option"
  e_image :: "pyval option"

text \<open>The globals \<open>KB\<close>, \<open>UI\<close>, \<open>MTIME\<close>.\<close>

record state =
  KB :: "entry list"
  UI :: pyval
  MTIME :: real

definition init_state :: state where
  "init_state = \<lparr>KB = [], UI = PDict [], MTIME = 0\<rparr>"

section \<open>Scorer\<close>

definition build_query_text :: "pylib \<Rightarrow> entry \<Rightarrow> ustr" where
  "build_query_text L item =
     (let title = lower L (py_str L (e_title item));
          topic = lower L (py_str L (e_topic item));
          keywords = join [32] (norm_list L (PList (map PStr (e_keywords item))));
          text = lower L (py_str L (e_text item));
          text = take 800 text
      in strip (title @ [32] @ topic @ [32] @ keywords @ [32] @ text))"

fun keyword_overlap :: "ustr \<Rightarrow> ustr list \<Rightarrow> nat" where
  "keyword_overlap user_text [] = 0"
| "keyword_overlap user_text (kw # keywords) =
     (if kw \<noteq> [] \<and> sublist kw user_text then 1 else 0) + keyword_overlap user_text keywords"

text \<open>
  The overlap bonus, \<open>min(overlap * 4.0, 16.0)\<close>. No rounding takes part in it:
  below an overlap of 4 the product is 0, 4, 8 or 12, and from 4 on the minimum
  is 16.
\<close>

definition overlap_bonus :: "nat \<Rightarrow> real" where
  "overlap_bonus overlap = min (real overlap * 4) 16"

text \<open>One pass of the loop of \<open>top2_match\<close>: \<open>None\<close> is the \<open>continue\<close>.\<close>

definition score_item :: "pylib \<Rightarrow> ustr \<Rightarrow> entry \<Rightarrow> (real \<times> entry \<times> nat) option" where
  "score_item L user_text item =
     (let kws = norm_list L (PList (map PStr (e_keywords item)));
          overlap = keyword_overlap user_text kws;
          q = build_query_text L item
      in if q = [] then None
         else
           let s1 = token_set_ratio L user_text q;
               s2 = partial_ratio L user_text q;
               score = max s1 s2;
               score = fadd L score (overlap_bonus overlap);
               score = (if overlap = 0 then fsub L score 5 else score)
           in Some (score, item, overlap))"

fun scored_loop :: "pylib \<Rightarrow> ustr \<Rightarrow> entry list \<Rightarrow> (real \<times> entry \<times> nat) list" where
  "scored_loop L user_text [] = []"
| "scored_loop L user_text (item # kb) =
     (case score_item L user_text item of
        None \<Rightarrow> scored_loop L user_text kb
      | Some r \<Rightarrow> r # scored_loop L user_text kb)"

text \<open>
  \<open>scored.sort(key=lambda x: x[0], reverse=True)\<close> is a stable sort by descending
  score: entries of equal score keep their order.
\<close>

definition top2_match ::
  "pylib \<Rightarrow> entry list \<Rightarrow> ustr \<Rightarrow> (real \<times> entry option) \<times> (real \<times> entry option)" where
  "top2_match L kb user_text =
     (let scored = sort_key (\<lambda>x. - fst x) (scored_loop L user_text kb);
          top1 = (if length scored > 0
                  then (fst (scored ! 0), Some (fst (snd (scored ! 0)))) else (0, None));
          top2 = (if length scored > 1
                  then (fst (scored ! 1), Some (fst (snd (scored ! 1)))) else (0, None))
      in (top1, top2))"



section \<open>Loader\<close>

text \<open>
  What one call of \<open>load_json\<close> sees of the file system: the outcome of
  \<open>os.path.getmtime(DATA_PATH)\<close> (the time, or the \<open>OSError\<close> raised) and the
  outcome of opening the file and \<open>json.load\<close> (the document, or the exception).
\<close>

record filesys =
  getmtime :: "error + real"
  json_load :: "error + pyval"

text \<open>The first loop: one entry for every member of \<open>items\<close>.\<close>

definition item_entry :: "pylib \<Rightarrow> pyval \<Rightarrow> error + entry" where
  "item_entry L it =
     ebind (py_get it (u ''id'') PNone) (\<lambda>i.
     ebind (py_get it (u ''title'') (PStr [])) (\<lambda>title.
     ebind (py_get it (u ''topic'') (PStr [])) (\<lambda>topic.
     ebind (py_get it (u ''keywords'') PNone) (\<lambda>kws.
     ebind (py_get it (u ''text'') (PStr [])) (\<lambda>text.
       Inr \<lparr>e_id = i, e_title = title, e_topic = topic, e_keywords = norm_list L kws,
            e_text = text, e_source = u ''items'', e_parent_id = None, e_image = None\<rparr>)))))"

fun items_loop :: "pylib \<Rightarrow> pyval list \<Rightarrow> error + entry list" where
  "items_loop L [] = Inr []"
| "items_loop L (it # its) =
     ebind (item_entry L it) (\<lambda>e. ebind (items_loop L its) (\<lambda>es. Inr (e # es)))"

text \<open>The inner loop over \<open>enumerate(chunks)\<close>, from index \<open>idx\<close>.\<close>

fun chunks_loop ::
  "pylib \<Rightarrow> pyval \<Rightarrow> pyval \<Rightarrow> pyval \<Rightarrow> nat \<Rightarrow> ustr list \<Rightarrow> error + entry list" where
  "chunks_loop L pid title img idx [] = Inr []"
| "chunks_loop L pid title img idx (ch # chunks) =
     ebind (extract_keywords L title (PStr ch)) (\<lambda>kws.
     ebind (chunks_loop L pid title img (Suc idx) chunks) (\<lambda>es.
       Inr (\<lparr>e_id = PStr (u ''problem_'' @ py_str L pid @ u ''_chunk_'' @
                            py_str L (PInt (int idx))),
              e_title = title, e_topic = PStr (u ''expert_article''), e_keywords = kws,
              e_text = PStr ch, e_source = u ''problems'', e_parent_id = Some pid,
              e_image = Some img\<rparr> # es)))"

definition problem_entries :: "pylib \<Rightarrow> pyval \<Rightarrow> error + entry list" where
  "problem_entries L p =
     ebind (py_get p (u ''id'') PNone) (\<lambda>pid.
     ebind (py_get p (u ''title'') (PStr [])) (\<lambda>title.
     ebind (py_get p (u ''description'') (PStr [])) (\<lambda>desc.
     ebind (py_get p (u ''image'') PNone) (\<lambda>img.
     ebind (split_into_chunks desc) (\<lambda>chunks.
       chunks_loop L pid title img 0 chunks)))))"

fun problems_loop :: "pylib \<Rightarrow> pyval list \<Rightarrow> error + entry list" where
  "problems_loop L [] = Inr []"
| "problems_loop L (p # ps) =
     ebind (problem_entries L p) (\<lambda>es. ebind (problems_loop L ps) (\<lambda>rest. Inr (es @ rest)))"

text \<open>
  \<open>load_json\<close> returns nothing or raises, and assigns the globals on its way: the
  result is the outcome together with the state it leaves.
\<close>

definition load_json :: "pylib \<Rightarrow> filesys \<Rightarrow> state \<Rightarrow> (error + unit) \<times> state" where
  "load_json L fs st =
     (case getmtime fs of
        Inl e \<Rightarrow>
          (if e = FileNotFoundError then (Inr (), \<lparr>KB = [], UI = PDict [], MTIME = 0\<rparr>)
           else (Inl e, st))
      | Inr mtime \<Rightarrow>
          if mtime = MTIME st then (Inr (), st)
          else
            (case json_load fs of
               Inl e \<Rightarrow> (Inl e, st)
             | Inr data \<Rightarrow>
                 (case py_get data (u ''ui'') (PDict []) of
                    Inl e \<Rightarrow> (Inl e, st)
                  | Inr ui \<Rightarrow>
                      let st1 = st\<lparr>UI := py_or ui (PDict [])\<rparr>;
                          kb = ebind (py_get data (u ''items'') PNone) (\<lambda>items.
                               ebind (py_iter (py_or items (PList []))) (\<lambda>its.
                               ebind (items_loop L its) (\<lambda>kb1.
                               ebind (py_get data (u ''problems'') PNone) (\<lambda>problems.
                               ebind (py_iter (py_or problems (PList []))) (\<lambda>ps.
                               ebind (problems_loop L ps) (\<lambda>kb2.
                                 Inr (kb1 @ kb2)))))))
                      in (case kb of
                            Inl e \<Rightarrow> (Inl e, st1)
                          | Inr kb \<Rightarrow> (Inr (), st1\<lparr>KB := kb, MTIME := mtime\<rparr>)))))"

section \<open>Answering\<close>

record source_ref =
  src_id :: pyval
  src_title :: pyval
  src_source :: ustr
  src_score :: real
  src_parent_id :: pyval

record response =
  answer :: pyval
  used_context :: bool
  sources :: "source_ref list"

text \<open>The reply to an empty message.\<close>

definition ASK_REPLY :: response where
  "ASK_REPLY =
     \<lparr>answer = PStr [90, 601, 104, 109, 601, 116, 32, 111, 108, 109, 97, 115, 97, 32, 115, 117,
                       97, 108, 305, 110, 305, 122, 305, 32, 121, 97, 122, 305, 110, 46],
      used_context = False, sources = []\<rparr>"

text \<open>The clarification reply.\<close>

definition CLARIFY_REPLY :: response where
  "CLARIFY_REPLY =
     \<lparr>answer = PStr [
      83, 117, 97, 108, 305, 110, 305, 122, 305, 32, 100, 601, 113, 105, 113, 32, 116,
      117, 116, 109, 97, 100, 305, 109, 46, 32, 90, 601, 104, 109, 601, 116, 32, 111,
      108, 109, 97, 115, 97, 32, 49, 45, 50, 32, 100, 101, 116, 97, 108, 32, 601, 108,
      97, 118, 601, 32, 101, 100, 105, 110, 58, 10, 8226, 32, 89, 97, 351, 32, 110, 101,
      231, 601, 100, 105, 114, 63, 10, 8226, 32, 78, 601, 32, 116, 101, 116, 105, 107,
      108, 601, 121, 105, 114, 63, 32, 40, 115, 601, 115, 44, 32, 105, 351, 305, 113, 44,
      32, 113, 111, 120, 117, 44, 32, 116, 111, 120, 117, 110, 117, 351, 44, 32, 114,
      117, 116, 105, 110, 32, 112, 111, 122, 117, 108, 109, 97, 115, 305, 41, 10, 8226,
      32, 78, 601, 32, 113, 601, 100, 601, 114, 32, 116, 101, 122, 45, 116, 101, 122, 32,
      111, 108, 117, 114, 63, 10, 77, 601, 115, 58, 32, 8220, 53, 32, 121, 97, 351, 44,
      32, 116, 111, 122, 115, 111, 114, 97, 110, 32, 115, 601, 115, 105, 110, 100, 601,
      32, 113, 117, 108, 97, 113, 108, 97, 114, 305, 110, 305, 32, 116, 117, 116, 117,
      98, 32, 97, 287, 108, 97, 121, 305, 114, 8221, 46],
      used_context = False, sources = []\<rparr>"

text \<open>The reply that carries the entry \<open>item1\<close>, scored \<open>s1\<close>.\<close>

definition accept_reply :: "pylib \<Rightarrow> entry \<Rightarrow> real \<Rightarrow> response" where
  "accept_reply L item1 s1 =
     \<lparr>answer = e_text item1,
      used_context = True,
      sources = [\<lparr>src_id = e_id item1, src_title = e_title item1,
                   src_source = e_source item1, src_score = round2 L s1,
                   src_parent_id = (case e_parent_id item1 of None \<Rightarrow> PNone | Some v \<Rightarrow> v)\<rparr>]\<rparr>"

text \<open>
  \<open>chat\<close>: \<open>req.message\<close> is a \<open>str\<close>, so \<open>req.message or ""\<close> is the message.
  \<open>THRESHOLD\<close> is 80.0 and \<open>MARGIN\<close> is 4.0. The lead \<open>s1 - s2\<close> is only
  compared with 4.0 once \<open>s1\<close> is at least 80.0; there the float difference is
  the exact one when \<open>s2\<close> is at least half of \<open>s1\<close>, and above 40 otherwise, so
  the comparison is that of the exact difference.
\<close>

definition chat :: "pylib \<Rightarrow> filesys \<Rightarrow> state \<Rightarrow> ustr \<Rightarrow> (error + response) \<times> state" where
  "chat L fs st message =
     (case load_json L fs st of
        (Inl e, st') \<Rightarrow> (Inl e, st')
      | (Inr _, st') \<Rightarrow>
          let user_text = lower L (strip message)
          in if user_text = [] then (Inr ASK_REPLY, st')
             else
               (case top2_match L (KB st') user_text of
                  ((s1, item1), (s2, _)) \<Rightarrow>
                    (case item1 of
                       Some it \<Rightarrow>
                         if s1 \<ge> 80 \<and> s1 - s2 \<ge> 4 then (Inr (accept_reply L it s1), st')
                         else (Inr CLARIFY_REPLY, st')
                     | None \<Rightarrow> (Inr CLARIFY_REPLY, st'))))"

section \<open>Letter case\<close>








definition lower_char :: "nat \<Rightarrow> ustr" where
  "lower_char c =
     (if 65 \<le> c \<and> c \<le> 90 then [c + 32]
      else if c = 399 then [601] else if c = 286 then [287] else if c = 214 then [246]
      else if c = 350 then [351] else if c = 220 then [252] else if c = 199 then [231]
      else if c = 304 then [105, 775] else [c])"

section \<open>A concrete library for running the model\<close>

text \<open>
  To evaluate the functions on examples the library parameter is instantiated:
  \<open>lower\<close> by \<open>lower_char\<close> on every character, \<open>str()\<close> on \<open>None\<close>, booleans
  and integers only (any other value gives a question mark), \<open>round(x, 2)\<close> as
  the identity and the float sum and difference as the exact ones (all exact on the
  scores of the examples, which are whole numbers), and
  both ratios as 100 when the first string occurs in the second and 0 otherwise.
  \<open>rapidfuzz\<close> returns 100 in the first case as well; the examples in which an
  entry is accepted, or two entries tie, use the ratios only there.
\<close>

definition lower0 :: "ustr \<Rightarrow> ustr" where
  "lower0 s = concat (map lower_char s)"

fun decimal :: "nat \<Rightarrow> ustr" where
  "decimal n = (if n < 10 then [48 + n] else decimal (n div 10) @ [48 + n mod 10])"

declare decimal.simps [simp del]

fun repr0 :: "pyval \<Rightarrow> ustr" where
  "repr0 PNone = u ''None''"
| "repr0 (PBool b) = (if b then u ''True'' else u ''False'')"
| "repr0 (PInt i) = (if i < 0 then 45 # decimal (nat (- i)) else decimal (nat i))"
| "repr0 _ = u ''?''"

definition substring_ratio :: "ustr \<Rightarrow> ustr \<Rightarrow> real" where
  "substring_ratio a b = (if sublist a b then 100 else 0)"

definition lib0 :: pylib where
  "lib0 = \<lparr>lower = lower0, repr = repr0, round2 = (\<lambda>x. x),
            fadd = (\<lambda>x y. x + y), fsub = (\<lambda>x y. x - y),
            token_set_ratio = substring_ratio, partial_ratio = substring_ratio\<rparr>"

section \<open>Example inputs\<close>

text \<open>A file whose modification time is 5 and whose content does not parse.\<close>

definition fs_broken :: filesys where
  "fs_broken = \<lparr>getmtime = Inr 5, json_load = Inl JSONDecodeError\<rparr>"

text \<open>A short-answer entry, and the state of a program that loaded it at time 5.\<close>

definition entry_a :: entry where
  "entry_a = \<lparr>e_id = PInt 1, e_title = PStr (u ''Qulaq''), e_topic = PStr [],
     e_keywords = [u ''ses''], e_text = PStr (u ''Cavab A''), e_source = u ''items'',
     e_parent_id = None, e_image = None\<rparr>"

definition st_a :: state where
  "st_a = \<lparr>KB = [entry_a], UI = PDict [], MTIME = 5\<rparr>"

text \<open>A second entry with the same keyword, and a state that holds both.\<close>

definition entry_b :: entry where
  "entry_b = \<lparr>e_id = PInt 2, e_title = PStr (u ''Ses''), e_topic = PStr [],
     e_keywords = [u ''ses''], e_text = PStr (u ''Cavab B''), e_source = u ''items'',
     e_parent_id = None, e_image = None\<rparr>"

definition st_ab :: state where
  "st_ab = \<lparr>KB = [entry_a, entry_b], UI = PDict [], MTIME = 5\<rparr>"



text \<open>The entry that the first loop builds from an empty object: every text is empty.\<close>

definition entry_void :: entry where
  "entry_void = \<lparr>e_id = PNone, e_title = PStr [], e_topic = PStr [], e_keywords = [],
     e_text = PStr [], e_source = u ''items'', e_parent_id = None, e_image = None\<rparr>"

text \<open>
  A document with one short answer that has no \<open>text\<close> and one article whose
  description is two spaces.
\<close>

definition doc_blank :: pyval where
  "doc_blank = PDict [
     (u ''items'', PList [PDict [(u ''id'', PInt 1), (u ''title'', PStr (u ''a''))]]),
     (u ''problems'', PList [PDict [(u ''id'', PInt 7), (u ''title'', PStr (u ''Yuxu'')),
                                    (u ''description'', PStr [32, 32])]])]"

definition fs_blank :: filesys where
  "fs_blank = \<lparr>getmtime = Inr 7, json_load = Inr doc_blank\<rparr>"

text \<open>The document from which \<open>st_a\<close> is loaded, in a file of modification time 5.\<close>

definition doc_a :: pyval where
  "doc_a = PDict [(u ''items'', PList [PDict [(u ''id'', PInt 1), (u ''title'', PStr (u ''Qulaq'')),
      (u ''keywords'', PList [PStr (u ''ses'')]), (u ''text'', PStr (u ''Cavab A''))]])]"

definition fs_a :: filesys where
  "fs_a = \<lparr>getmtime = Inr 5, json_load = Inr doc_a\<rparr>"

text \<open>
  A document whose \<open>ui\<close> section is well formed and whose \<open>items\<close> section is
  the number 5, in a file of modification time 6.
\<close>

definition doc_bad_items :: pyval where
  "doc_bad_items = PDict [(u ''ui'', PDict [(u ''botName'', PStr (u ''X''))]),
                          (u ''items'', PInt 5)]"

definition fs_bad_items :: filesys where
  "fs_bad_items = \<lparr>getmtime = Inr 6, json_load = Inr doc_bad_items\<rparr>"

text \<open>
  A file that \<open>os.path.getmtime\<close> may not reach (no search permission on a
  directory of its path), and a file that does not exist.
\<close>

definition fs_denied :: filesys where
  "fs_denied = \<lparr>getmtime = Inl PermissionError, json_load = Inl PermissionError\<rparr>"

definition fs_missing :: filesys where
  "fs_missing = \<lparr>getmtime = Inl FileNotFoundError, json_load = Inl FileNotFoundError\<rparr>"

text \<open>
  Two paragraphs of 90 and 95 characters; a text that separates them by one blank
  line; and a text with CR LF line ends, a short paragraph between the two and
  white space around.
\<close>

definition para_a :: ustr where
  "para_a = u ''Usaq yuksek ses esidende qulaqlarini tutub aglayir ve otaqdan cixmaq isteyir, sakitlesmir.''"

definition para_b :: ustr where
  "para_b = u ''Bele hallarda sesin menbeyini uzaqlasdirin, usaga sakit bir kunc verin ve qulaqciq teklif edin.''"

definition text_one_blank :: ustr where
  "text_one_blank = para_a @ [10, 10] @ para_b"

definition text_crlf :: ustr where
  "text_crlf = [32] @ para_a @ [13, 10, 13, 10] @ u ''qisa'' @ [10, 10, 10] @ para_b @ [10]"

section \<open>Evaluation\<close>

lemma u_simps: "u [] = []" "u (c # cs) = of_char c # u cs"
  by (simp_all add: u_def)

lemmas run_defs = u_simps lib0_def lower0_def lower_char_def substring_ratio_def py_str_def strip_def
  isspace_def norm_list_def build_query_text_def score_item_def overlap_bonus_def
  top2_match_def sublist_code Let_def

lemmas load_defs = load_json_def ebind_def item_entry_def problem_entries_def
  split_into_chunks_def py_or_def extract_keywords_def or_empty_lower_def KEYBANK_def

lemma load_a: "load_json lib0 fs_a init_state = (Inr (), st_a)"
  by (simp add: load_defs fs_a_def doc_a_def init_state_def st_a_def entry_a_def run_defs)

section \<open>Trimming\<close>

lemma strip_blank:
  assumes "\<forall>c \<in> set s. isspace c"
  shows "strip s = []"
proof -
  from assms have 1: "dropWhile isspace s = []" by simp
  show ?thesis unfolding strip_def 1 by simp
qed


lemma sublist_strip: "sublist (strip s) s"
proof -
  have "suffix (dropWhile isspace s) s" by (rule suffix_dropWhile)
  moreover have "prefix (strip s) (dropWhile isspace s)"
    unfolding strip_def
    by (metis prefix_def rev_append rev_rev_ident takeWhile_dropWhile_id)
  ultimately show ?thesis
    by (meson prefix_imp_sublist suffix_imp_sublist sublist_order.order_trans)
qed

section \<open>The loader's cache\<close>

text \<open>
  C9. When the modification time of the file equals the recorded \<open>MTIME\<close>,
  \<open>load_json\<close> returns normally and leaves \<open>KB\<close>, \<open>UI\<close> and \<open>MTIME\<close> as they
  were. The file is not read: the statement holds for every outcome \<open>json_load\<close>
  of reading and parsing it, a failure included. A call that follows a successful
  one on the same file is such a call: it changes nothing.
\<close>

theorem load_json_same_mtime:
  "(getmtime fs = Inr (MTIME st) \<longrightarrow> load_json L fs st = (Inr (), st)) \<and>
   (load_json L fs st = (Inr (), st') \<longrightarrow> load_json L fs st' = (Inr (), st'))"
proof (intro conjI impI)
  assume "getmtime fs = Inr (MTIME st)"
  then show "load_json L fs st = (Inr (), st)" by (simp add: load_json_def)
next
  assume "load_json L fs st = (Inr (), st')"
  then show "load_json L fs st' = (Inr (), st')"
    by (auto simp: load_json_def Let_def split: sum.splits if_splits)
qed

theorem load_json_same_mtime_witness:
  "getmtime fs_broken = Inr (MTIME st_a) \<and> load_json lib0 fs_broken st_a = (Inr (), st_a) \<and>
   load_json lib0 fs_a init_state = (Inr (), st_a) \<and> load_json lib0 fs_a st_a = (Inr (), st_a)"
  using load_json_same_mtime [of fs_broken st_a lib0 st_a]
    load_json_same_mtime [of fs_a init_state lib0 st_a] load_a
  by (simp add: fs_broken_def st_a_def)

section \<open>The score of an entry\<close>

lemma overlap_bonus_mono: "a \<le> b \<Longrightarrow> overlap_bonus a \<le> overlap_bonus b"
  by (simp add: overlap_bonus_def min_def)

lemma overlap_bonus_cap: "4 \<le> a \<Longrightarrow> overlap_bonus a = 16"
  by (simp add: overlap_bonus_def min_def)









section \<open>The ranking\<close>

lemma score_item_Some:
  "score_item L user_text item = Some (s, e, ov) \<Longrightarrow> e = item \<and> build_query_text L item \<noteq> []"
  by (auto simp: score_item_def Let_def split: if_splits)

lemma scored_loop_mem:
  "(s, e, ov) \<in> set (scored_loop L user_text kb) \<Longrightarrow> e \<in> set kb \<and> build_query_text L e \<noteq> []"
proof (induction kb)
  case Nil
  then show ?case by simp
next
  case (Cons item kb)
  then show ?case
    by (auto split: option.splits dest: score_item_Some)
qed

lemma sorted_nth_mem:
  "i < length (sort_key f xs) \<Longrightarrow> sort_key f xs ! i \<in> set xs"
  by (metis nth_mem set_sort)

text \<open>
  C6, as the code has it. \<open>load_json\<close> does not check the \<open>text\<close> of an entry, so
  nothing is claimed of it. An entry whose composite query text is empty gets no
  score at all: it is not in the scored list, and neither the best nor the
  second-best entry of \<open>top2_match\<close> is such an entry. This holds for every
  knowledge base, the one a reload leaves included.
\<close>

theorem top2_match_skips_empty_query:
  assumes "top2_match L kb user_text = ((s1, item1), (s2, item2))"
  shows "(\<forall>e. item1 = Some e \<longrightarrow> e \<in> set kb \<and> build_query_text L e \<noteq> []) \<and>
         (\<forall>e. item2 = Some e \<longrightarrow> e \<in> set kb \<and> build_query_text L e \<noteq> []) \<and>
         (\<forall>r \<in> set (scored_loop L user_text kb). build_query_text L (fst (snd r)) \<noteq> [])"
proof -
  define sc where "sc = sort_key (\<lambda>x. - fst x) (scored_loop L user_text kb)"
  have mem: "fst (snd (sc ! i)) \<in> set kb \<and> build_query_text L (fst (snd (sc ! i))) \<noteq> []"
    if "i < length sc" for i
  proof -
    from that have "sc ! i \<in> set (scored_loop L user_text kb)"
      unfolding sc_def by (rule sorted_nth_mem)
    then show ?thesis
      using scored_loop_mem [of "fst (sc ! i)" "fst (snd (sc ! i))" "snd (snd (sc ! i))"]
      by simp
  qed
  from assms have 1: "item1 = (if length sc > 0 then Some (fst (snd (sc ! 0))) else None)"
    and 2: "item2 = (if length sc > 1 then Some (fst (snd (sc ! 1))) else None)"
    unfolding top2_match_def Let_def sc_def [symmetric] by (simp_all split: if_splits)
  show ?thesis
  proof (intro conjI allI impI ballI)
    fix e assume "item1 = Some e"
    with 1 have "0 < length sc" and "e = fst (snd (sc ! 0))" by (simp_all split: if_splits)
    with mem [of 0] show "e \<in> set kb" and "build_query_text L e \<noteq> []" by simp_all
  next
    fix e assume "item2 = Some e"
    with 2 have "1 < length sc" and "e = fst (snd (sc ! 1))" by (simp_all split: if_splits)
    with mem [of 1] show "e \<in> set kb" and "build_query_text L e \<noteq> []" by simp_all
  next
    fix r assume "r \<in> set (scored_loop L user_text kb)"
    then show "build_query_text L (fst (snd r)) \<noteq> []"
      using scored_loop_mem [of "fst r" "fst (snd r)" "snd (snd r)"] by simp
  qed
qed

theorem top2_match_skips_empty_query_witness:
  "top2_match lib0 [entry_void, entry_a] (u ''ses'') = ((104, Some entry_a), (0, None)) \<and>
   build_query_text lib0 entry_void = [] \<and>
   entry_a \<in> set [entry_void, entry_a] \<and> build_query_text lib0 entry_a \<noteq> []"
  using top2_match_skips_empty_query
    [of lib0 "[entry_void, entry_a]" "u ''ses''" 104 "Some entry_a" 0 None]
  by (simp add: run_defs entry_a_def entry_void_def)

text \<open>
  The first part of C6 as the specification states it fails: after a successful
  reload of \<open>doc_blank\<close> both entries of the knowledge base have the empty text.
\<close>

theorem load_json_empty_text_counterexample:
  "fst (load_json lib0 fs_blank init_state) = Inr () \<and>
   map e_text (KB (snd (load_json lib0 fs_blank init_state))) = [PStr [], PStr []]"
  by (simp add: load_defs fs_blank_def doc_blank_def init_state_def run_defs)

section \<open>The decision\<close>

text \<open>
  C1. When the reload succeeds and the trimmed, lower-cased message is not empty,
  \<open>chat\<close> answers from the pair \<open>((s1, item1), (s2, _))\<close> that \<open>top2_match\<close>
  returns: the reply uses the context exactly when a best entry exists, \<open>s1\<close> is at
  least 80 and \<open>s1 - s2\<close> is at least 4; it then carries the text of that entry;
  in every other case it is the fixed clarification reply, with no sources.
\<close>

theorem chat_decision:
  assumes "load_json L fs st = (Inr (), st')"
      and "lower L (strip message) \<noteq> []"
      and "top2_match L (KB st') (lower L (strip message)) = ((s1, item1), (s2, item2))"
  shows "\<exists>r. chat L fs st message = (Inr r, st')
           \<and> (used_context r \<longleftrightarrow> (\<exists>it. item1 = Some it) \<and> 80 \<le> s1 \<and> 4 \<le> s1 - s2)
           \<and> (used_context r \<longrightarrow>
                (\<exists>it. item1 = Some it \<and> r = accept_reply L it s1 \<and> answer r = e_text it))
           \<and> (\<not> used_context r \<longrightarrow> r = CLARIFY_REPLY \<and> sources r = [])"
  using assms
  by (cases item1) (auto simp: chat_def Let_def accept_reply_def CLARIFY_REPLY_def)

theorem chat_decision_witness:
  "load_json lib0 fs_broken st_a = (Inr (), st_a) \<and>
   lower lib0 (strip (u ''  SES '')) \<noteq> [] \<and>
   top2_match lib0 (KB st_a) (lower lib0 (strip (u ''  SES ''))) = ((104, Some entry_a), (0, None)) \<and>
   chat lib0 fs_broken st_a (u ''  SES '') = (Inr (accept_reply lib0 entry_a 104), st_a) \<and>
   lower lib0 (strip (u ''xyz'')) \<noteq> [] \<and>
   top2_match lib0 (KB st_a) (lower lib0 (strip (u ''xyz''))) = ((- 5, Some entry_a), (0, None)) \<and>
   chat lib0 fs_broken st_a (u ''xyz'') = (Inr CLARIFY_REPLY, st_a) \<and>
   load_json lib0 fs_broken st_ab = (Inr (), st_ab) \<and>
   top2_match lib0 (KB st_ab) (lower lib0 (strip (u ''  SES '')))
     = ((104, Some entry_a), (104, Some entry_b)) \<and>
   chat lib0 fs_broken st_ab (u ''  SES '') = (Inr CLARIFY_REPLY, st_ab)"
proof -
  have h1: "load_json lib0 fs_broken st_a = (Inr (), st_a)"
    by (simp add: load_json_def fs_broken_def st_a_def)
  have h2: "lower lib0 (strip (u ''  SES '')) \<noteq> []"
    by (simp add: run_defs)
  have h3: "top2_match lib0 (KB st_a) (lower lib0 (strip (u ''  SES '')))
              = ((104, Some entry_a), (0, None))"
    by (simp add: st_a_def run_defs entry_a_def)
  have h4: "lower lib0 (strip (u ''xyz'')) \<noteq> []"
    by (simp add: run_defs)
  have h5: "top2_match lib0 (KB st_a) (lower lib0 (strip (u ''xyz'')))
              = ((- 5, Some entry_a), (0, None))"
    by (simp add: st_a_def run_defs entry_a_def)
  have h6: "load_json lib0 fs_broken st_ab = (Inr (), st_ab)"
    by (simp add: load_json_def fs_broken_def st_ab_def)
  have h7: "top2_match lib0 (KB st_ab) (lower lib0 (strip (u ''  SES '')))
              = ((104, Some entry_a), (104, Some entry_b))"
    by (simp add: st_ab_def run_defs entry_a_def entry_b_def)
  have c1: "chat lib0 fs_broken st_a (u ''  SES '') = (Inr (accept_reply lib0 entry_a 104), st_a)"
    using chat_decision [OF h1 h2 h3] by auto
  have c2: "chat lib0 fs_broken st_a (u ''xyz'') = (Inr CLARIFY_REPLY, st_a)"
    using chat_decision [OF h1 h4 h5] by auto
  have c3: "chat lib0 fs_broken st_ab (u ''  SES '') = (Inr CLARIFY_REPLY, st_ab)"
    using chat_decision [OF h6 h2 h7] by auto
  show ?thesis
    using h1 h2 h3 h4 h5 h6 h7 c1 c2 c3 by blast
qed

section \<open>Reload failures\<close>

text \<open>
  C8, as the code has it. \<open>load_json\<close> catches \<open>FileNotFoundError\<close> only. When
  the file does not exist it returns normally and resets \<open>KB\<close> to the empty list,
  \<open>UI\<close> to the empty dict and \<open>MTIME\<close> to zero, whatever the state was; while the
  file stays missing, \<open>chat\<close> answers every message that is not blank with the
  clarification reply. Every other exception of \<open>os.path.getmtime\<close> is raised to
  the caller, of \<open>load_json\<close> and of \<open>chat\<close>, and the state is left as it was.
\<close>

theorem load_json_missing_file:
  "(getmtime fs = Inl FileNotFoundError \<longrightarrow>
      load_json L fs st = (Inr (), \<lparr>KB = [], UI = PDict [], MTIME = 0\<rparr>) \<and>
      (\<forall>message. lower L (strip message) \<noteq> [] \<longrightarrow>
         chat L fs st message = (Inr CLARIFY_REPLY, \<lparr>KB = [], UI = PDict [], MTIME = 0\<rparr>))) \<and>
   (\<forall>e. getmtime fs = Inl e \<and> e \<noteq> FileNotFoundError \<longrightarrow>
      load_json L fs st = (Inl e, st) \<and>
      (\<forall>message. chat L fs st message = (Inl e, st)))"
  by (simp add: load_json_def chat_def top2_match_def)

theorem load_json_missing_file_witness:
  "getmtime fs_missing = Inl FileNotFoundError \<and>
   load_json lib0 fs_missing st_a = (Inr (), init_state) \<and>
   lower lib0 (strip (u ''ses'')) \<noteq> [] \<and>
   chat lib0 fs_missing st_a (u ''ses'') = (Inr CLARIFY_REPLY, init_state) \<and>
   getmtime fs_denied = Inl PermissionError \<and>
   load_json lib0 fs_denied st_a = (Inl PermissionError, st_a) \<and>
   chat lib0 fs_denied st_a (u ''ses'') = (Inl PermissionError, st_a)"
proof -
  have h: "getmtime fs_missing = Inl FileNotFoundError" by (simp add: fs_missing_def)
  have n: "lower lib0 (strip (u ''ses'')) \<noteq> []" by (simp add: run_defs)
  have d: "getmtime fs_denied = Inl PermissionError" by (simp add: fs_denied_def)
  show ?thesis
    using load_json_missing_file [of fs_missing lib0 st_a]
      load_json_missing_file [of fs_denied lib0 st_a] h n d
    by (simp add: init_state_def)
qed

text \<open>
  C8 as the specification states it fails for a file that is unreachable at the
  stat step for another reason: the \<open>PermissionError\<close> of \<open>os.path.getmtime\<close> is
  raised to the caller and the state is not reset.
\<close>

theorem load_json_denied_counterexample:
  "load_json lib0 fs_denied st_a = (Inl PermissionError, st_a)"
  by (simp add: load_json_def fs_denied_def)

text \<open>
  C3. \<open>load_json\<close> assigns \<open>UI\<close> before it reads the \<open>items\<close> and \<open>problems\<close>
  sections. On \<open>doc_bad_items\<close> the loop over \<open>items\<close> raises \<open>TypeError\<close>;
  \<open>KB\<close> and \<open>MTIME\<close> are as before the call, \<open>UI\<close> is already the new one.
\<close>

theorem load_json_partial_reload:
  "load_json lib0 fs_bad_items st_a =
     (Inl TypeError,
      \<lparr>KB = [entry_a], UI = PDict [(u ''botName'', PStr (u ''X''))], MTIME = 5\<rparr>) \<and>
   st_a = \<lparr>KB = [entry_a], UI = PDict [], MTIME = 5\<rparr>"
  by (simp add: load_defs fs_bad_items_def doc_bad_items_def st_a_def u_simps)

section \<open>The normalizer on a blank string\<close>

text \<open>
  C4. \<open>norm_list\<close> of a string of three spaces is the list of the empty string:
  the output holds a blank string, and \<open>norm_list\<close> of that output is the empty
  list, so the function is not idempotent there.
\<close>

theorem norm_list_blank_string:
  "norm_list lib0 (PStr [32, 32, 32]) = [[]] \<and>
   norm_list lib0 (PList (map PStr (norm_list lib0 (PStr [32, 32, 32])))) = []"
  by (simp add: run_defs)

section \<open>Blank messages\<close>

text \<open>
  C7, as the code has it. \<open>chat\<close> calls \<open>load_json\<close> first, as every endpoint
  does. For a message of white space only (the empty message included) the outcome
  is that of the reload: its exception if it raises, and otherwise the fixed reply
  that asks for a question, with \<open>used_context\<close> false and no sources. Nothing is
  scored: the reply does not depend on the knowledge base.
\<close>

theorem chat_blank_message:
  assumes "lower L [] = []" and "\<forall>c \<in> set message. isspace c"
  shows "chat L fs st message =
           (case load_json L fs st of
              (Inl e, st') \<Rightarrow> (Inl e, st')
            | (Inr x, st') \<Rightarrow> (Inr ASK_REPLY, st'))
         \<and> used_context ASK_REPLY = False \<and> sources ASK_REPLY = []"
  using assms
  by (simp add: chat_def strip_blank ASK_REPLY_def split: prod.splits sum.splits)

theorem chat_blank_message_witness:
  "lower lib0 [] = [] \<and> list_all isspace [32, 32] \<and>
   chat lib0 fs_a init_state [32, 32] = (Inr ASK_REPLY, st_a)"
proof -
  have h1: "lower lib0 [] = []" by (simp add: run_defs)
  have h2: "\<forall>c \<in> set [32, 32]. isspace c" by (simp add: isspace_def)
  show ?thesis
    using chat_blank_message [OF h1 h2, of fs_a init_state] h1 h2 load_a by simp
qed

text \<open>
  C7 as the specification states it fails: a message of two spaces makes the
  program reload (the knowledge base, empty before, holds \<open>entry_a\<close> afterwards),
  and when the file does not parse the caller gets the exception, not the reply.
\<close>

theorem chat_blank_message_counterexample:
  "chat lib0 fs_a init_state [32, 32] = (Inr ASK_REPLY, st_a) \<and>
   KB init_state = [] \<and> KB st_a = [entry_a] \<and>
   chat lib0 fs_broken init_state [32, 32] = (Inl JSONDecodeError, init_state)"
  using load_a
  by (simp add: chat_def strip_def isspace_def lib0_def lower0_def init_state_def
      st_a_def load_json_def fs_broken_def)

section \<open>Case and surrounding white space of the message\<close>
















section \<open>The chunker\<close>

lemma re_split_nl_not_Nil: "re_split_nl t \<noteq> []"
  by (cases t) (auto split: list.splits)

lemma re_split_nl_sep:
  assumes "c = 10 \<and> take 1 cs = [10]"
  shows "re_split_nl (c # cs) = [] # re_split_nl (dropWhile (\<lambda>x. x = 10) cs)"
  using assms by auto

lemma re_split_nl_step:
  assumes "\<not> (c = 10 \<and> take 1 cs = [10])" and "re_split_nl cs = q # qs"
  shows "re_split_nl (c # cs) = (c # q) # qs"
  using assms by auto

lemma takeWhile_eq_replicate:
  "takeWhile (\<lambda>x. x = a) xs = replicate (length (takeWhile (\<lambda>x. x = a) xs)) a"
  by (induction xs) auto

lemma re_split_nl_weave:
  "\<exists>seps. length seps + 1 = length (re_split_nl t) \<and>
          (\<forall>sep \<in> set seps. \<exists>n\<ge>2. sep = replicate n 10) \<and>
          weave (re_split_nl t) seps = t"
proof (induction t rule: re_split_nl.induct)
  case 1
  show ?case by (rule exI [of _ "[]"]) simp
next
  case (2 c cs)
  show ?case
  proof (cases "c = 10 \<and> take 1 cs = [10]")
    case True
    let ?run = "takeWhile (\<lambda>x. x = 10) cs"
    from 2(1) [OF True] obtain seps where
      L: "length seps + 1 = length (re_split_nl (dropWhile (\<lambda>x. x = 10) cs))"
      and S: "\<forall>sep \<in> set seps. \<exists>n\<ge>2. sep = replicate n 10"
      and W: "weave (re_split_nl (dropWhile (\<lambda>x. x = 10) cs)) seps = dropWhile (\<lambda>x. x = 10) cs"
      by blast
    from True have "?run \<noteq> []" by (cases cs) auto
    then have len: "1 \<le> length ?run" by (cases ?run) auto
    have "10 # ?run = replicate (Suc (length ?run)) 10"
      using takeWhile_eq_replicate [of 10 cs] by simp
    with len have sep: "\<exists>n\<ge>2. 10 # ?run = replicate n 10"
      by (intro exI [of _ "Suc (length ?run)"]) simp
    show ?thesis
      unfolding re_split_nl_sep [OF True]
      by (rule exI [of _ "(10 # ?run) # seps"]) (use True L S W sep in simp)
  next
    case False
    from 2(2) [OF False] obtain seps where
      L: "length seps + 1 = length (re_split_nl cs)"
      and S: "\<forall>sep \<in> set seps. \<exists>n\<ge>2. sep = replicate n 10"
      and W: "weave (re_split_nl cs) seps = cs"
      by blast
    obtain p ps where P: "re_split_nl cs = p # ps"
      using re_split_nl_not_Nil [of cs] by (cases "re_split_nl cs") auto
    have "weave ((c # p) # ps) seps = c # weave (p # ps) seps"
      by (cases seps) simp_all
    with L S W P show ?thesis
      unfolding re_split_nl_step [OF False P]
      by (intro exI [of _ seps]) simp
  qed
qed

lemma re_split_nl_hd_prefix: "prefix (hd (re_split_nl t)) t"
proof -
  obtain seps where "weave (re_split_nl t) seps = t"
    using re_split_nl_weave by blast
  moreover obtain p ps where "re_split_nl t = p # ps"
    using re_split_nl_not_Nil [of t] by (cases "re_split_nl t") auto
  ultimately show ?thesis
    by (cases seps) (auto simp: prefix_def)
qed

lemma re_split_nl_sublist: "p \<in> set (re_split_nl t) \<Longrightarrow> sublist p t"
proof (induction t arbitrary: p rule: re_split_nl.induct)
  case 1
  then show ?case by simp
next
  case (2 c cs)
  show ?case
  proof (cases "c = 10 \<and> take 1 cs = [10]")
    case True
    from 2(3) have "p = [] \<or> p \<in> set (re_split_nl (dropWhile (\<lambda>x. x = 10) cs))"
      unfolding re_split_nl_sep [OF True] by auto
    then show ?thesis
    proof
      assume "p = []" then show ?thesis by simp
    next
      assume "p \<in> set (re_split_nl (dropWhile (\<lambda>x. x = 10) cs))"
      then have "sublist p (dropWhile (\<lambda>x. x = 10) cs)" by (rule 2(1) [OF True])
      then have "sublist p cs" using sublist_dropWhile sublist_order.order_trans by blast
      then show ?thesis by (simp add: sublist_Cons_right)
    qed
  next
    case False
    obtain q qs where Q: "re_split_nl cs = q # qs"
      using re_split_nl_not_Nil [of cs] by (cases "re_split_nl cs") auto
    from 2(3) have "p = c # q \<or> p \<in> set qs"
      unfolding re_split_nl_step [OF False Q] by auto
    then show ?thesis
    proof
      assume "p = c # q"
      moreover have "prefix q cs" using re_split_nl_hd_prefix [of cs] Q by simp
      ultimately show ?thesis by (simp add: sublist_Cons_right)
    next
      assume "p \<in> set qs"
      with Q have "p \<in> set (re_split_nl cs)" by simp
      then have "sublist p cs" by (rule 2(2) [OF False])
      then show ?thesis by (simp add: sublist_Cons_right)
    qed
  qed
qed

lemma re_split_nl_no_double: "p \<in> set (re_split_nl t) \<Longrightarrow> \<not> sublist [10, 10] p"
proof (induction t arbitrary: p rule: re_split_nl.induct)
  case 1
  then show ?case by simp
next
  case (2 c cs)
  show ?case
  proof (cases "c = 10 \<and> take 1 cs = [10]")
    case True
    from 2(3) have "p = [] \<or> p \<in> set (re_split_nl (dropWhile (\<lambda>x. x = 10) cs))"
      unfolding re_split_nl_sep [OF True] by auto
    then show ?thesis using 2(1) [OF True] by auto
  next
    case False
    obtain q qs where Q: "re_split_nl cs = q # qs"
      using re_split_nl_not_Nil [of cs] by (cases "re_split_nl cs") auto
    from 2(3) have "p = c # q \<or> p \<in> set qs"
      unfolding re_split_nl_step [OF False Q] by auto
    then show ?thesis
    proof
      assume P: "p = c # q"
      have q: "\<not> sublist [10, 10] q" using 2(2) [OF False, of q] Q by simp
      have pre: "prefix q cs" using re_split_nl_hd_prefix [of cs] Q by simp
      have "\<not> prefix [10, 10] (c # q)"
      proof
        assume "prefix [10, 10] (c # q)"
        then have "c = 10" and "prefix [10] q" by simp_all
        with pre have "prefix [10] cs" by (meson prefix_order.order_trans)
        then have "take 1 cs = [10]" by (cases cs) auto
        with \<open>c = 10\<close> False show False by simp
      qed
      with q P show ?thesis by (simp add: sublist_Cons_right)
    next
      assume "p \<in> set qs"
      with Q have "p \<in> set (re_split_nl cs)" by simp
      then show ?thesis by (rule 2(2) [OF False])
    qed
  qed
qed


lemma re_split_nl_tl: "p \<in> set (tl (re_split_nl t)) \<Longrightarrow> \<not> prefix [10] p"
proof (induction t arbitrary: p rule: re_split_nl.induct)
  case 1
  then show ?case by simp
next
  case (2 c cs)
  show ?case
  proof (cases "c = 10 \<and> take 1 cs = [10]")
    case True
    let ?rest = "dropWhile (\<lambda>x. x = 10) cs"
    from 2(3) have mem: "p \<in> set (re_split_nl ?rest)"
      unfolding re_split_nl_sep [OF True] by simp
    obtain q qs where Q: "re_split_nl ?rest = q # qs"
      using re_split_nl_not_Nil [of ?rest] by (cases "re_split_nl ?rest") auto
    with mem have "p = q \<or> p \<in> set (tl (re_split_nl ?rest))" by auto
    then show ?thesis
    proof
      assume "p = q"
      with Q have pre: "prefix p ?rest" using re_split_nl_hd_prefix [of ?rest] by simp
      show ?thesis
      proof
        assume "prefix [10] p"
        with pre have "prefix [10] ?rest" by (meson prefix_order.order_trans)
        then obtain r where "?rest = 10 # r" by (cases ?rest) auto
        then show False by (metis (full_types) hd_dropWhile list.sel(1) list.distinct(1))
      qed
    next
      assume "p \<in> set (tl (re_split_nl ?rest))"
      then show ?thesis by (rule 2(1) [OF True])
    qed
  next
    case False
    obtain q qs where Q: "re_split_nl cs = q # qs"
      using re_split_nl_not_Nil [of cs] by (cases "re_split_nl cs") auto
    from 2(3) have "p \<in> set (tl (re_split_nl cs))"
      unfolding re_split_nl_step [OF False Q] using Q by simp
    then show ?thesis by (rule 2(2) [OF False])
  qed
qed

lemma re_split_nl_empty_first:
  assumes "re_split_nl t = [] # q # qs"
  shows "take 1 t = [10]"
proof (cases t)
  case Nil
  with assms show ?thesis by simp
next
  case (Cons c cs)
  show ?thesis
  proof (cases "c = 10 \<and> take 1 cs = [10]")
    case True
    with Cons show ?thesis by simp
  next
    case False
    obtain r rs where R: "re_split_nl cs = r # rs"
      using re_split_nl_not_Nil [of cs] by (cases "re_split_nl cs") auto
    from assms show ?thesis
      unfolding Cons re_split_nl_step [OF False R] by simp
  qed
qed

lemma re_split_nl_butlast: "p \<in> set (butlast (re_split_nl t)) \<Longrightarrow> \<not> suffix [10] p"
proof (induction t arbitrary: p rule: re_split_nl.induct)
  case 1
  then show ?case by simp
next
  case (2 c cs)
  show ?case
  proof (cases "c = 10 \<and> take 1 cs = [10]")
    case True
    let ?rest = "dropWhile (\<lambda>x. x = 10) cs"
    from 2(3) have "p = [] \<or> p \<in> set (butlast (re_split_nl ?rest))"
      unfolding re_split_nl_sep [OF True] using re_split_nl_not_Nil [of ?rest] by auto
    then show ?thesis using 2(1) [OF True] by auto
  next
    case False
    obtain q qs where Q: "re_split_nl cs = q # qs"
      using re_split_nl_not_Nil [of cs] by (cases "re_split_nl cs") auto
    from 2(3) have mem: "p \<in> set (butlast ((c # q) # qs))"
      unfolding re_split_nl_step [OF False Q] .
    show ?thesis
    proof (cases qs)
      case Nil
      with mem show ?thesis by simp
    next
      case (Cons r rs)
      with mem have "p = c # q \<or> p \<in> set (butlast qs)" by auto
      then show ?thesis
      proof
        assume P: "p = c # q"
        from Q Cons have "q \<in> set (butlast (re_split_nl cs))" by simp
        then have nq: "\<not> suffix [10] q" by (rule 2(2) [OF False])
        show ?thesis
        proof (cases q)
          case Nil
          with Q Cons have "take 1 cs = [10]" using re_split_nl_empty_first [of cs r rs] by simp
          with False have "c \<noteq> 10" by simp
          with P Nil show ?thesis by (simp add: suffix_Cons)
        next
          case (Cons x xs)
          with nq P show ?thesis by (auto simp: suffix_Cons)
        qed
      next
        assume "p \<in> set (butlast qs)"
        with Q Cons have "p \<in> set (butlast (re_split_nl cs))" by simp
        then show ?thesis by (rule 2(2) [OF False])
      qed
    qed
  qed
qed

text \<open>
  C5, as the code has it. The empty text has no passage. For a text \<open>s\<close> that is
  not empty, let \<open>t\<close> be \<open>s\<close> with every CR LF replaced by LF and then trimmed.
  \<open>split_into_chunks\<close> returns at least one passage: the trimmed pieces of \<open>t\<close>
  that are at least 80 characters long, in their order, or \<open>t\<close> alone when there
  is none; every passage is a contiguous part of \<open>t\<close>. The pieces are what stands
  between the separators of \<open>t\<close>: each separator is a run of two or more line
  feeds (one blank line is enough), pieces and separators in turn make up \<open>t\<close>, no
  piece holds two line feeds in a row, and the runs are maximal (no piece after a
  separator starts with a line feed and no piece before one ends with it).
\<close>

theorem split_into_chunks_passages:
  "split_into_chunks (PStr []) = Inr [] \<and>
   (s \<noteq> [] \<longrightarrow>
     (let t = strip (replace_crlf s);
          pieces = re_split_nl t;
          long = filter (\<lambda>p. 80 \<le> length p) (map strip pieces)
      in \<exists>ps seps.
           split_into_chunks (PStr s) = Inr ps \<and> ps \<noteq> [] \<and>
           ps = (if long = [] then [t] else long) \<and>
           (\<forall>p \<in> set ps. sublist p t) \<and>
           length seps + 1 = length pieces \<and>
           (\<forall>sep \<in> set seps. \<exists>n\<ge>2. sep = replicate n 10) \<and>
           weave pieces seps = t \<and>
           (\<forall>p \<in> set pieces. \<not> sublist [10, 10] p) \<and>
           (\<forall>p \<in> set (tl pieces). \<not> prefix [10] p) \<and>
           (\<forall>p \<in> set (butlast pieces). \<not> suffix [10] p)))"
proof (intro conjI impI)
  show "split_into_chunks (PStr []) = Inr []"
    by (simp add: split_into_chunks_def)
next
  assume ne: "s \<noteq> []"
  define t where "t = strip (replace_crlf s)"
  define pieces where "pieces = re_split_nl t"
  define long where "long = filter (\<lambda>p. 80 \<le> length p) (map strip pieces)"
  define ps where "ps = (if long = [] then [t] else long)"
  obtain seps where seps: "length seps + 1 = length pieces"
      "\<forall>sep \<in> set seps. \<exists>n\<ge>2. sep = replicate n 10" "weave pieces seps = t"
    unfolding pieces_def using re_split_nl_weave [of t] by blast
  have res: "split_into_chunks (PStr s) = Inr ps"
    using ne by (simp add: split_into_chunks_def Let_def ps_def long_def pieces_def t_def not_less)
  have "ps \<noteq> []" by (auto simp: ps_def)
  have sub: "\<forall>p \<in> set ps. sublist p t"
  proof
    fix p assume "p \<in> set ps"
    then consider "p = t" | q where "q \<in> set pieces" "p = strip q"
      by (auto simp: ps_def long_def split: if_splits)
    then show "sublist p t"
    proof cases
      case 1
      then show ?thesis by simp
    next
      case 2
      then have "sublist q t" unfolding pieces_def by (simp add: re_split_nl_sublist)
      moreover have "sublist p q" using 2 by (simp add: sublist_strip)
      ultimately show ?thesis by (meson sublist_order.order_trans)
    qed
  qed
  have "\<exists>ps seps.
           split_into_chunks (PStr s) = Inr ps \<and> ps \<noteq> [] \<and>
           ps = (if long = [] then [t] else long) \<and>
           (\<forall>p \<in> set ps. sublist p t) \<and>
           length seps + 1 = length pieces \<and>
           (\<forall>sep \<in> set seps. \<exists>n\<ge>2. sep = replicate n 10) \<and>
           weave pieces seps = t \<and>
           (\<forall>p \<in> set pieces. \<not> sublist [10, 10] p) \<and>
           (\<forall>p \<in> set (tl pieces). \<not> prefix [10] p) \<and>
           (\<forall>p \<in> set (butlast pieces). \<not> suffix [10] p)"
    using res \<open>ps \<noteq> []\<close> sub seps
    by (intro exI [of _ ps] exI [of _ seps])
       (simp add: ps_def pieces_def re_split_nl_no_double re_split_nl_tl re_split_nl_butlast)
  then show "let t = strip (replace_crlf s);
          pieces = re_split_nl t;
          long = filter (\<lambda>p. 80 \<le> length p) (map strip pieces)
      in \<exists>ps seps.
           split_into_chunks (PStr s) = Inr ps \<and> ps \<noteq> [] \<and>
           ps = (if long = [] then [t] else long) \<and>
           (\<forall>p \<in> set ps. sublist p t) \<and>
           length seps + 1 = length pieces \<and>
           (\<forall>sep \<in> set seps. \<exists>n\<ge>2. sep = replicate n 10) \<and>
           weave pieces seps = t \<and>
           (\<forall>p \<in> set pieces. \<not> sublist [10, 10] p) \<and>
           (\<forall>p \<in> set (tl pieces). \<not> prefix [10] p) \<and>
           (\<forall>p \<in> set (butlast pieces). \<not> suffix [10] p)"
    unfolding Let_def t_def pieces_def long_def by simp
qed

theorem split_into_chunks_passages_witness:
  "text_crlf \<noteq> [] \<and> split_into_chunks (PStr text_crlf) = Inr [para_a, para_b] \<and>
   sublist para_a (strip (replace_crlf text_crlf)) \<and>
   sublist para_b (strip (replace_crlf text_crlf))"
proof -
  have ne: "text_crlf \<noteq> []" by (simp add: text_crlf_def)
  have ev: "split_into_chunks (PStr text_crlf) = Inr [para_a, para_b]"
    by (simp add: text_crlf_def para_a_def para_b_def u_simps
        split_into_chunks_def strip_def isspace_def Let_def)
  from split_into_chunks_passages [of text_crlf] ne obtain ps where
    "split_into_chunks (PStr text_crlf) = Inr ps"
    "\<forall>p \<in> set ps. sublist p (strip (replace_crlf text_crlf))"
    unfolding Let_def by blast
  with ev ne show ?thesis by simp
qed

text \<open>
  C5 as the specification states it fails: \<open>text_one_blank\<close> has no two blank
  lines in a row, so a split at runs of two or more blank lines would leave it
  whole (it is longer than 80 characters); the code returns its two paragraphs.
\<close>

theorem split_into_chunks_one_blank_line_counterexample:
  "\<not> has_two_blank_lines text_one_blank \<and>
   split_into_chunks (PStr text_one_blank) = Inr [para_a, para_b] \<and>
   split_into_chunks (PStr text_one_blank) \<noteq> Inr [text_one_blank]"
  by (simp add: has_two_blank_lines_def text_one_blank_def para_a_def para_b_def u_simps
      split_into_chunks_def strip_def isspace_def Let_def)

end
